theory Spec2Isabelle
  imports Complex_Main "HOL-Library.Sublist" "HOL-Library.Char_ord" "HOL-Library.List_Lexorder"
begin

section \<open>Strings\<close>

text \<open>
  A Python \<open>str\<close> is modelled as a \<open>string\<close> whose characters are the code points
  0..255. The character classes below are those of Python on that range.
\<close>

definition is_space :: "char \<Rightarrow> bool" where
  \<comment> \<open>\<open>str.isspace\<close> on one character: what \<open>strip()\<close> and \<open>split()\<close> treat as whitespace\<close>
  "is_space c = (c \<in> set [CHR 0x09, CHR 0x0A, CHR 0x0B, CHR 0x0C, CHR 0x0D,
                          CHR 0x1C, CHR 0x1D, CHR 0x1E, CHR 0x1F, CHR 0x20,
                          CHR 0x85, CHR 0xA0])"

definition is_digit :: "char \<Rightarrow> bool" where
  \<comment> \<open>\<open>str.isdigit\<close> on one character: the decimal digits and the superscripts 1, 2, 3\<close>
  "is_digit c = (c \<in> set (''0123456789'' @ [CHR 0xB2, CHR 0xB3, CHR 0xB9]))"

definition isdigit :: "string \<Rightarrow> bool" where
  "isdigit s = (s \<noteq> [] \<and> list_all is_digit s)"

definition lower_char :: "char \<Rightarrow> char" where
  "lower_char c =
     (let n = (of_char c :: nat)
      in if (65 \<le> n \<and> n \<le> 90) \<or> (192 \<le> n \<and> n \<le> 214) \<or> (216 \<le> n \<and> n \<le> 222)
         then char_of (n + 32) else c)"

definition lower :: "string \<Rightarrow> string" where
  "lower s = map lower_char s"

definition strip_by :: "(char \<Rightarrow> bool) \<Rightarrow> string \<Rightarrow> string" where
  "strip_by sp s = rev (dropWhile sp (rev (dropWhile sp s)))"

definition strip :: "string \<Rightarrow> string" where
  "strip s = strip_by is_space s"

fun split_by :: "(char \<Rightarrow> bool) \<Rightarrow> string \<Rightarrow> string \<Rightarrow> string list" where
  \<comment> \<open>\<open>s.split()\<close>: the maximal runs of non-whitespace characters; the second argument
      is the run read so far\<close>
  "split_by sp cur [] = (if cur = [] then [] else [cur])"
| "split_by sp cur (c # cs) =
     (if sp c then (if cur = [] then split_by sp [] cs else cur # split_by sp [] cs)
      else split_by sp (cur @ [c]) cs)"

fun join :: "string \<Rightarrow> string list \<Rightarrow> string" where
  "join sep [] = []"
| "join sep [w] = w"
| "join sep (w # ws) = w @ sep @ join sep ws"

function str_replace :: "string \<Rightarrow> string \<Rightarrow> nat option \<Rightarrow> string \<Rightarrow> string" where
  \<comment> \<open>\<open>s.replace(old, new[, count])\<close> for a non-empty \<open>old\<close> (both call sites pass one
      character): left to right, without overlap, at most \<open>count\<close> times\<close>
  "str_replace old new cnt [] = []"
| "str_replace old new cnt (c # cs) =
     (if cnt \<noteq> Some 0 \<and> old \<noteq> [] \<and> prefix old (c # cs)
      then new @ str_replace old new (map_option (\<lambda>n. n - 1) cnt) (drop (length old) (c # cs))
      else c # str_replace old new cnt cs)"
  by pat_completeness auto
termination
  by (relation "measure (\<lambda>(old, new, cnt, s). length s)") (auto simp: neq_Nil_conv)

definition startswith :: "string \<Rightarrow> string \<Rightarrow> bool" where
  "startswith s p = (take (length p) s = p)"

section \<open>The product table of a page\<close>

text \<open>
  The page state that \<open>build_col_map\<close> and \<open>extract_metrics\<close> read through the driver:
  the header cells under \<open>thead\<close>, and the rows of \<open>tbody\<close>, each a sequence of \<open>th\<close>
  and \<open>td\<close> cells. A cell has the text Selenium reports for it (\<open>.text\<close>) and the
  string value XPath sees.
\<close>

datatype tag = TH | TD

record cell =
  cell_tag :: tag
  cell_text :: string
  string_value :: string

type_synonym row = "cell list"

record table =
  thead :: "string list"
  tbody :: "row list"

datatype driver_error = NoSuchElement | InvalidSelector

datatype py_error = IndexError | KeyError | FileNotFoundError | WebDriverException
  | OSError | ValueError

definition is_xml_space :: "char \<Rightarrow> bool" where
  "is_xml_space c = (c \<in> set [CHR 0x20, CHR 0x09, CHR 0x0A, CHR 0x0D])"

definition normalize_space :: "string \<Rightarrow> string" where
  \<comment> \<open>XPath \<open>normalize-space()\<close>\<close>
  "normalize_space s = join '' '' (split_by is_xml_space [] s)"

fun contains :: "string \<Rightarrow> string \<Rightarrow> bool" where
  \<comment> \<open>XPath \<open>contains(s, sub)\<close>\<close>
  "contains [] sub = (sub = [])"
| "contains (c # cs) sub = (prefix sub (c # cs) \<or> contains cs sub)"

definition tds :: "row \<Rightarrow> cell list" where
  \<comment> \<open>\<open>row.find_elements(By.XPATH, ".//td")\<close>\<close>
  "tds r = filter (\<lambda>c. cell_tag c = TD) r"

definition find_element :: "table \<Rightarrow> string \<Rightarrow> (string \<Rightarrow> bool) \<Rightarrow> driver_error + row" where
  \<comment> \<open>\<open>driver.find_element\<close> for \<open>tbody/tr[.//td[p(normalize-space())]]\<close>: the first row in
      document order, NoSuchElementException when there is none. The identifier is
      spliced into the XPath between apostrophes, so an identifier with an apostrophe
      in it does not give the intended expression: InvalidSelectorException.\<close>
  "find_element t varenr p =
     (if CHR 0x27 \<in> set varenr then Inl InvalidSelector
      else case filter (\<lambda>r. list_ex (\<lambda>c. p (normalize_space (string_value c))) (tds r)) (tbody t) of
             [] \<Rightarrow> Inl NoSuchElement
           | r # _ \<Rightarrow> Inr r)"

definition normalize_header :: "string \<Rightarrow> string" where
  "normalize_header txt = join '' '' (split_by is_space [] (lower txt))"

definition header_elements :: "table \<Rightarrow> string list" where
  \<comment> \<open>the \<open>.text\<close> of the elements \<open>build_col_map\<close> enumerates: \<open>thead//th\<close>, and when
      there are none the cells of the first body row\<close>
  "header_elements t =
     (if thead t \<noteq> [] then thead t
      else case tbody t of [] \<Rightarrow> [] | r # _ \<Rightarrow> map cell_text r)"

fun col_map_loop :: "(string \<rightharpoonup> nat) \<Rightarrow> (nat \<times> string) list \<Rightarrow> (string \<rightharpoonup> nat)" where
  "col_map_loop col_map [] = col_map"
| "col_map_loop col_map ((idx, h) # hs) =
     (let txt = strip h
      in if txt \<noteq> [] then col_map_loop (col_map(normalize_header txt \<mapsto> idx)) hs
         else col_map_loop col_map hs)"

definition build_col_map :: "table \<Rightarrow> (string \<rightharpoonup> nat)" where
  "build_col_map t =
     (let headers = header_elements t
      in col_map_loop Map.empty (zip [0 ..< length headers] headers))"

section \<open>Record extraction\<close>

record metrics =
  meter_pr_rulle :: string
  basisenhed :: string

datatype field = Meter_pr_rulle | Basisenhed

definition set_field :: "field \<Rightarrow> string \<Rightarrow> metrics \<Rightarrow> metrics" where
  "set_field key v result =
     (case key of Meter_pr_rulle \<Rightarrow> result\<lparr>meter_pr_rulle := v\<rparr>
                | Basisenhed \<Rightarrow> result\<lparr>basisenhed := v\<rparr>)"

definition desired :: "(string \<times> field) list" where
  "desired = [(''meter pr. rulle'', Meter_pr_rulle), (''basisenhed'', Basisenhed)]"

definition cell_at :: "cell list \<Rightarrow> nat \<Rightarrow> py_error + cell" where
  \<comment> \<open>\<open>cells[i]\<close> for an index that is not negative: IndexError out of range\<close>
  "cell_at cells i = (if i < length cells then Inr (cells ! i) else Inl IndexError)"

definition assign_cell :: "field \<Rightarrow> cell list \<Rightarrow> nat \<Rightarrow> metrics \<Rightarrow> py_error + metrics" where
  \<comment> \<open>\<open>result[key] = cells[i].text.strip()\<close>\<close>
  "assign_cell key cells i result =
     (case cell_at cells i of
        Inl e \<Rightarrow> Inl e
      | Inr c \<Rightarrow> Inr (set_field key (strip (cell_text c)) result))"

definition fill_field :: "(string \<rightharpoonup> nat) \<Rightarrow> cell list \<Rightarrow> string \<Rightarrow> field \<Rightarrow> metrics
    \<Rightarrow> py_error + metrics" where
  \<comment> \<open>the body of the loop over \<open>desired.items()\<close>\<close>
  "fill_field col_map cells header key result =
     (let idx = col_map header
      in if idx \<noteq> None \<and> the idx < length cells then assign_cell key cells (the idx) result
         else if key = Meter_pr_rulle \<and> length cells > 4 then assign_cell key cells 4 result
         else if key = Basisenhed \<and> length cells > 6 then assign_cell key cells 6 result
         else Inr result)"

fun fill_fields :: "(string \<rightharpoonup> nat) \<Rightarrow> cell list \<Rightarrow> (string \<times> field) list \<Rightarrow> metrics
    \<Rightarrow> py_error + metrics" where
  "fill_fields col_map cells [] result = Inr result"
| "fill_fields col_map cells ((header, key) # rest) result =
     (case fill_field col_map cells header key result of
        Inl e \<Rightarrow> Inl e
      | Inr result' \<Rightarrow> fill_fields col_map cells rest result')"

definition is_numeric_string :: "string \<Rightarrow> bool" where
  \<comment> \<open>\<open>s.replace(",", ".").replace(".", "", 1).isdigit()\<close>\<close>
  "is_numeric_string s =
     isdigit (str_replace ''.'' '''' (Some 1) (str_replace '','' ''.'' None s))"

definition cleanup :: "metrics \<Rightarrow> metrics" where
  "cleanup result =
     (let result1 = (if \<not> is_numeric_string (meter_pr_rulle result)
                     then result\<lparr>meter_pr_rulle := ''''\<rparr> else result)
      in if basisenhed result1 \<notin> set [''MTR'', ''Mtr.'']
         then result1\<lparr>basisenhed := ''''\<rparr> else result1)"

definition empty_metrics :: metrics where
  "empty_metrics = \<lparr>meter_pr_rulle = '''', basisenhed = ''''\<rparr>"

definition locate_row :: "table \<Rightarrow> string \<Rightarrow> row option" where
  \<comment> \<open>the nested \<open>try\<close>/\<open>except\<close>: exact match, then substring match; any exception
      of the second lookup makes \<open>extract_metrics\<close> return the initial record\<close>
  "locate_row t varenr =
     (case find_element t varenr (\<lambda>s. s = varenr) of
        Inr r \<Rightarrow> Some r
      | Inl _ \<Rightarrow>
          (case find_element t varenr (\<lambda>s. contains s varenr) of
             Inr r \<Rightarrow> Some r
           | Inl _ \<Rightarrow> None))"

definition extract_metrics :: "table \<Rightarrow> string \<Rightarrow> py_error + metrics" where
  "extract_metrics t varenr =
     (let result = empty_metrics;
          col_map = build_col_map t
      in case locate_row t varenr of
           None \<Rightarrow> Inr result
         | Some r \<Rightarrow>
             (case fill_fields col_map (tds r) desired result of
                Inl e \<Rightarrow> Inl e
              | Inr result' \<Rightarrow> Inr (cleanup result')))"

text \<open>
  The lookup policy in the words of the specification: the header name in the column
  map when its index is within the row, otherwise the fallback position when that is
  within the row, otherwise the empty string.
\<close>

definition two_stage_lookup :: "(string \<rightharpoonup> nat) \<Rightarrow> cell list \<Rightarrow> string \<Rightarrow> nat \<Rightarrow> string" where
  "two_stage_lookup col_map cells header fallback =
     (case col_map header of
        Some i \<Rightarrow>
          if i < length cells then strip (cell_text (cells ! i))
          else if fallback < length cells then strip (cell_text (cells ! fallback))
          else ''''
      | None \<Rightarrow>
          if fallback < length cells then strip (cell_text (cells ! fallback))
          else '''')"

subsection \<open>The same extractor in H1_scraper_script.py\<close>

definition build_column_index_map :: "table \<Rightarrow> (string \<rightharpoonup> nat)" where
  "build_column_index_map t =
     (let headers = header_elements t;
          col_names = map (\<lambda>h. let txt = strip h
                                 in if txt \<noteq> [] then normalize_header txt else '''') headers
      in fold (\<lambda>(idx, name) m. if name \<noteq> [] then m(name \<mapsto> idx) else m)
           (zip [0 ..< length col_names] col_names) Map.empty)"

definition fill_field_h1 :: "(string \<rightharpoonup> nat) \<Rightarrow> cell list \<Rightarrow> string \<Rightarrow> field \<Rightarrow> metrics
    \<Rightarrow> py_error + metrics" where
  "fill_field_h1 col_map cells header_text field_key result =
     (let idx = col_map header_text
      in if idx \<noteq> None \<and> the idx < length cells then assign_cell field_key cells (the idx) result
         else
           (let fallback_idx = (case field_key of Meter_pr_rulle \<Rightarrow> Some 4 | Basisenhed \<Rightarrow> Some 6)
            in if fallback_idx \<noteq> None \<and> the fallback_idx < length cells
               then assign_cell field_key cells (the fallback_idx) result
               else Inr result))"

fun fill_fields_h1 :: "(string \<rightharpoonup> nat) \<Rightarrow> cell list \<Rightarrow> (string \<times> field) list \<Rightarrow> metrics
    \<Rightarrow> py_error + metrics" where
  "fill_fields_h1 col_map cells [] result = Inr result"
| "fill_fields_h1 col_map cells ((header_text, field_key) # rest) result =
     (case fill_field_h1 col_map cells header_text field_key result of
        Inl e \<Rightarrow> Inl e
      | Inr result' \<Rightarrow> fill_fields_h1 col_map cells rest result')"

definition extract_table_metrics :: "table \<Rightarrow> string \<Rightarrow> py_error + metrics" where
  "extract_table_metrics t product_number =
     (let result = empty_metrics;
          col_map = build_column_index_map t
      in case locate_row t product_number of
           None \<Rightarrow> Inr result
         | Some r \<Rightarrow>
             (case fill_fields_h1 col_map (tds r) desired result of
                Inl e \<Rightarrow> Inl e
              | Inr result' \<Rightarrow> Inr (cleanup result')))"

subsection \<open>A product page\<close>

definition td :: "string \<Rightarrow> cell" where
  "td s = \<lparr>cell_tag = TD, cell_text = s, string_value = s\<rparr>"

definition product_page :: "string \<Rightarrow> string \<Rightarrow> string \<Rightarrow> table" where
  \<comment> \<open>a page with one row: the identifier in column 0, meters per roll in column 4,
      the base unit in column 6\<close>
  "product_page varenr meter unit =
     \<lparr>thead = [''Varenr.'', ''Navn'', ''Pris'', ''Lager'', ''Meter pr. rulle'', ''Antal'',
               ''Basisenhed''],
      tbody = [[td varenr, td ''Tape'', td ''10,00'', td ''3'', td meter, td ''1'', td unit]]\<rparr>"

section \<open>Loading the identifiers\<close>

text \<open>
  What \<open>pd.read_excel\<close> gives for a path: a data frame, a map from column names to
  columns; a cell is \<open>None\<close> when it is null (NaN). The file system maps the paths
  of existing files to their data frames. \<open>astype(str)\<close> is pandas's own rendering
  of a cell value, and is a parameter.
\<close>

type_synonym 'v dataframe = "string \<rightharpoonup> 'v option list"

type_synonym 'v filesystem = "string \<rightharpoonup> 'v dataframe"

fun dropna :: "'v option list \<Rightarrow> 'v list" where
  "dropna [] = []"
| "dropna (None # xs) = dropna xs"
| "dropna (Some v # xs) = v # dropna xs"

fun drop_duplicates_seen :: "string list \<Rightarrow> string list \<Rightarrow> string list" where
  \<comment> \<open>\<open>drop_duplicates()\<close> keeps the first occurrence of each value\<close>
  "drop_duplicates_seen seen [] = []"
| "drop_duplicates_seen seen (x # xs) =
     (if x \<in> set seen then drop_duplicates_seen seen xs
      else x # drop_duplicates_seen (x # seen) xs)"

definition drop_duplicates :: "string list \<Rightarrow> string list" where
  "drop_duplicates xs = drop_duplicates_seen [] xs"

definition load_varenr :: "('v \<Rightarrow> string) \<Rightarrow> 'v filesystem \<Rightarrow> string \<Rightarrow> py_error + string set" where
  "load_varenr astype_str fs path =
     (case fs path of
        None \<Rightarrow> Inl FileNotFoundError
      | Some df \<Rightarrow>
          (case df ''Varenr.'' of
             None \<Rightarrow> Inl KeyError
           | Some col \<Rightarrow>
               (let values = map strip (map astype_str (dropna col));
                    values = drop_duplicates (filter (\<lambda>v. v \<noteq> '''') values)
                in Inr (set values))))"

definition example_fs :: "string filesystem" where
  "example_fs = [''full.xlsx'' \<mapsto> [''Varenr.'' \<mapsto> [Some '' A1 '', None, Some ''A2'', Some ''  '', Some ''A1'']],
                 ''bad.xlsx'' \<mapsto> [''Navn'' \<mapsto> [Some ''Tape'']]]"

section \<open>The work list\<close>

definition to_scrape :: "string set \<Rightarrow> string set \<Rightarrow> string list" where
  \<comment> \<open>\<open>sorted(full_list - exclude_list)\<close>, then the filter on the prefix "25"\<close>
  "to_scrape full_list exclude_list =
     (let to_scrape = sorted_list_of_set (full_list - exclude_list)
      in filter (\<lambda>v. \<not> startswith v ''25'') to_scrape)"

section \<open>The scraping loop\<close>

text \<open>
  The site answers a search for an identifier by opening a product page, by letting
  the wait time out, or by failing in another way (an exception of the driver that is
  not TimeoutException). Delays are real numbers, in seconds.
\<close>

datatype search_outcome = Opened table | Timeout | Crashed

type_synonym site = "string \<Rightarrow> search_outcome"

record entry = metrics +
  Varenr :: string

datatype sleep_site = In_search | After_item

record run =
  results :: "entry list"
  slept :: "(sleep_site \<times> real) list"

definition sleep :: "sleep_site \<Rightarrow> real \<Rightarrow> run \<Rightarrow> py_error + run" where
  \<comment> \<open>\<open>time.sleep(d)\<close>: ValueError for a negative \<open>d\<close>\<close>
  "sleep w d st = (if d < 0 then Inl ValueError else Inr (st\<lparr>slept := slept st @ [(w, d)]\<rparr>))"

definition search_and_open_product :: "site \<Rightarrow> string \<Rightarrow> run \<Rightarrow> py_error + (table option \<times> run)" where
  \<comment> \<open>meter_pr_rulle_script.py: \<open>Some\<close> page for True, \<open>None\<close> for False; only
      TimeoutException is caught\<close>
  "search_and_open_product web varenr st =
     (case web varenr of
        Opened t \<Rightarrow> (case sleep In_search (1 / 2) st of Inl e \<Rightarrow> Inl e | Inr st' \<Rightarrow> Inr (Some t, st'))
      | Timeout \<Rightarrow> Inr (None, st)
      | Crashed \<Rightarrow> Inl WebDriverException)"

definition update_entry :: "entry \<Rightarrow> metrics \<Rightarrow> entry" where
  \<comment> \<open>\<open>entry.update(metrics)\<close>\<close>
  "update_entry e m = e\<lparr>meter_pr_rulle := meter_pr_rulle m, basisenhed := basisenhed m\<rparr>"

fun scrape_loop :: "site \<Rightarrow> string list \<Rightarrow> run \<Rightarrow> py_error + run" where
  "scrape_loop web [] st = Inr st"
| "scrape_loop web (varenr # rest) st =
     (let entry = \<lparr>meter_pr_rulle = '''', basisenhed = '''', Varenr = varenr\<rparr>
      in case search_and_open_product web varenr st of
           Inl e \<Rightarrow> Inl e
         | Inr (None, st1) \<Rightarrow> scrape_loop web rest (st1\<lparr>results := results st1 @ [entry]\<rparr>)
         | Inr (Some t, st1) \<Rightarrow>
             (case extract_metrics t varenr of
                Inl e \<Rightarrow> Inl e
              | Inr metrics \<Rightarrow>
                  scrape_loop web rest
                    (st1\<lparr>results := results st1 @ [update_entry entry metrics]\<rparr>)))"

definition new_run :: run where
  "new_run = \<lparr>results = [], slept = []\<rparr>"

subsection \<open>The loop of H1_scraper_script.py\<close>

definition search_and_open_product_h1 :: "site \<Rightarrow> string \<Rightarrow> run \<Rightarrow> py_error + (table option \<times> run)" where
  \<comment> \<open>every exception is caught and gives False\<close>
  "search_and_open_product_h1 web product_number st =
     (case web product_number of
        Opened t \<Rightarrow> (case sleep In_search (1 / 2) st of
                       Inl e \<Rightarrow> Inr (None, st) | Inr st' \<Rightarrow> Inr (Some t, st'))
      | Timeout \<Rightarrow> Inr (None, st)
      | Crashed \<Rightarrow> Inr (None, st))"

definition uniform :: "real \<Rightarrow> real \<Rightarrow> real \<Rightarrow> real" where
  \<comment> \<open>\<open>random.uniform(a, b)\<close> is \<open>a + (b - a) * random()\<close>; the third argument is the
      value of \<open>random()\<close>, in the unit interval\<close>
  "uniform a b r = a + (b - a) * r"

fun h1_loop :: "site \<Rightarrow> real \<Rightarrow> real \<Rightarrow> (nat \<Rightarrow> real) \<Rightarrow> nat \<Rightarrow> string list \<Rightarrow> run
    \<Rightarrow> py_error + run" where
  \<comment> \<open>\<open>random k\<close> is the value of the \<open>k\<close>-th call of \<open>random()\<close>; the fifth argument
      counts the calls made so far\<close>
  "h1_loop web min_delay max_delay random k [] st = Inr st"
| "h1_loop web min_delay max_delay random k (product_number # rest) st =
     (let entry = \<lparr>meter_pr_rulle = '''', basisenhed = '''', Varenr = product_number\<rparr>
      in case search_and_open_product_h1 web product_number st of
           Inl e \<Rightarrow> Inl e
         | Inr (success, st1) \<Rightarrow>
             (case (case success of
                      None \<Rightarrow> Inr entry
                    | Some t \<Rightarrow> (case extract_table_metrics t product_number of
                                   Inl e \<Rightarrow> Inl e
                                 | Inr metrics \<Rightarrow> Inr (update_entry entry metrics))) of
                Inl e \<Rightarrow> Inl e
              | Inr entry' \<Rightarrow>
                  (let st2 = st1\<lparr>results := results st1 @ [entry']\<rparr>;
                       delay = uniform min_delay max_delay (random k)
                   in case sleep After_item delay st2 of
                        Inl e \<Rightarrow> Inl e
                      | Inr st3 \<Rightarrow> h1_loop web min_delay max_delay random (Suc k) rest st3)))"

definition item_delays :: "run \<Rightarrow> real list" where
  \<comment> \<open>the delays slept between items, in order\<close>
  "item_delays st = map snd (filter (\<lambda>(w, d). w = After_item) (slept st))"

subsection \<open>A site\<close>

definition example_site :: site where
  \<comment> \<open>a search for "A1" opens its product page, one for "C3" fails in the driver, any
      other search times out\<close>
  "example_site v = (if v = ''A1'' then Opened (product_page ''A1'' ''12,5'' ''MTR'')
                     else if v = ''C3'' then Crashed else Timeout)"

section \<open>The result sink\<close>

text \<open>
  The storage the sink writes to: the table stored under each path, and the paths
  that can be written. \<open>to_excel\<close> on a path that cannot be written raises and stores
  nothing.
\<close>

datatype log_record =
    Saved_rows nat string
  | Periodic_save_complete
  | Wrote_excel string
  | No_results_to_write
  | Failed_to_write py_error
  | Done

record storage =
  files :: "string \<rightharpoonup> entry list"
  writable :: "string \<Rightarrow> bool"
  logged :: "log_record list"

definition to_excel :: "entry list \<Rightarrow> string \<Rightarrow> storage \<Rightarrow> py_error + storage" where
  "to_excel rows path s =
     (if writable s path then Inr (s\<lparr>files := (files s)(path \<mapsto> rows)\<rparr>) else Inl OSError)"

definition logging :: "log_record \<Rightarrow> storage \<Rightarrow> storage" where
  "logging m s = s\<lparr>logged := logged s @ [m]\<rparr>"

definition write_excel :: "entry list \<Rightarrow> string \<Rightarrow> storage \<Rightarrow> py_error + storage" where
  \<comment> \<open>meter_pr_rulle_script.py\<close>
  "write_excel rs path s =
     (if rs \<noteq> [] then
        (case to_excel rs path s of
           Inl e \<Rightarrow> Inl e
         | Inr s' \<Rightarrow> Inr (logging (Saved_rows (length rs) path) s'))
      else Inr s)"

definition write_outputs :: "entry list \<Rightarrow> string \<Rightarrow> storage \<Rightarrow> py_error + storage" where
  \<comment> \<open>H1_scraper_script.py\<close>
  "write_outputs rs xlsx_path s =
     (if rs = [] then Inr (logging No_results_to_write s)
      else (case to_excel rs xlsx_path s of
              Inr s' \<Rightarrow> Inr (logging (Wrote_excel xlsx_path) s')
            | Inl e \<Rightarrow> Inr (logging (Failed_to_write e) s)))"

section \<open>The end of a run\<close>

text \<open>
  The state \<open>main\<close> works on after the loop: the browser session, the stop event,
  the thread of \<open>periodic_save\<close>, the storage, and the calls made so far.
\<close>

datatype action = Driver_quit | Stop_event_set | Save_thread_join | Final_write

record world =
  browser_open :: bool
  stop_event :: bool
  save_thread_alive :: bool
  disk :: storage
  actions :: "action list"

definition driver_quit :: "world \<Rightarrow> world" where
  "driver_quit w = w\<lparr>browser_open := False, actions := actions w @ [Driver_quit]\<rparr>"

definition stop_event_set :: "world \<Rightarrow> world" where
  "stop_event_set w = w\<lparr>stop_event := True, actions := actions w @ [Stop_event_set]\<rparr>"

definition save_thread_join :: "(entry list \<Rightarrow> string \<Rightarrow> storage \<Rightarrow> py_error + storage)
    \<Rightarrow> entry list \<Rightarrow> string \<Rightarrow> world \<Rightarrow> world" where
  \<comment> \<open>\<open>save_thread.join()\<close> returns when the thread of \<open>periodic_save\<close> has ended. A
      thread that is alive ends its cycle first: it writes the results once more and
      then sees the stop event; an exception of that write ends the thread.\<close>
  "save_thread_join writer rs path w =
     (let d = (if save_thread_alive w
               then (case writer rs path (disk w) of
                       Inl e \<Rightarrow> disk w
                     | Inr s \<Rightarrow> logging Periodic_save_complete s)
               else disk w)
      in w\<lparr>save_thread_alive := False, disk := d, actions := actions w @ [Save_thread_join]\<rparr>)"

definition final_write :: "(entry list \<Rightarrow> string \<Rightarrow> storage \<Rightarrow> py_error + storage)
    \<Rightarrow> entry list \<Rightarrow> string \<Rightarrow> world \<Rightarrow> py_error + world" where
  "final_write writer rs path w =
     (case writer rs path (disk w) of
        Inl e \<Rightarrow> Inl e
      | Inr s \<Rightarrow> Inr (w\<lparr>disk := logging Done s, actions := actions w @ [Final_write]\<rparr>))"

definition main_cleanup :: "entry list \<Rightarrow> string \<Rightarrow> world \<Rightarrow> py_error + world" where
  \<comment> \<open>meter_pr_rulle_script.py, lines 191 to 195\<close>
  "main_cleanup rs output_xlsx w =
     (let w1 = driver_quit w;
          w2 = stop_event_set w1;
          w3 = save_thread_join write_excel rs output_xlsx w2
      in final_write write_excel rs output_xlsx w3)"

definition main_cleanup_h1 :: "entry list \<Rightarrow> string \<Rightarrow> world \<Rightarrow> py_error + world" where
  \<comment> \<open>H1_scraper_script.py, lines 209 to 213\<close>
  "main_cleanup_h1 rs output_xlsx w =
     (let w1 = driver_quit w;
          w2 = stop_event_set w1;
          w3 = save_thread_join write_outputs rs output_xlsx w2
      in final_write write_outputs rs output_xlsx w3)"

fun happens_before :: "action \<Rightarrow> action \<Rightarrow> action list \<Rightarrow> bool" where
  \<comment> \<open>some \<open>a\<close> is followed, later in the list, by a \<open>b\<close>\<close>
  "happens_before a b [] = False"
| "happens_before a b (x # xs) = ((x = a \<and> b \<in> set xs) \<or> happens_before a b xs)"

definition running :: "storage \<Rightarrow> world" where
  \<comment> \<open>the state at the end of the loop: browser open, autosave thread running\<close>
  "running s = \<lparr>browser_open = True, stop_event = False, save_thread_alive = True,
                disk = s, actions = []\<rparr>"

subsection \<open>Storages and a result\<close>

definition open_storage :: storage where
  \<comment> \<open>every path can be written\<close>
  "open_storage = \<lparr>files = Map.empty, writable = (\<lambda>p. True), logged = []\<rparr>"

definition locked_storage :: storage where
  \<comment> \<open>no path can be written, as when the workbook is open in another program\<close>
  "locked_storage = \<lparr>files = Map.empty, writable = (\<lambda>p. False), logged = []\<rparr>"

definition one_result :: "entry list" where
  "one_result = [\<lparr>meter_pr_rulle = '''', basisenhed = '''', Varenr = ''A1''\<rparr>]"

section \<open>Properties of the extractor\<close>

lemma str_replace_all_char:
  "str_replace [a] [b] None s = map (\<lambda>c. if c = a then b else c) s"
  by (induction s) auto

lemma str_replace_zero: "str_replace old new (Some 0) s = s"
  by (induction s) auto

lemma str_replace_first_char: "str_replace [a] [] (Some (Suc 0)) s = remove1 a s"
  by (induction s) (auto simp: str_replace_zero)

lemma is_numeric_string_chars:
  "is_numeric_string s =
     (let t = remove1 (CHR ''.'') (map (\<lambda>c. if c = CHR '','' then CHR ''.'' else c) s)
      in t \<noteq> [] \<and> (\<forall>c \<in> set t. is_digit c))"
  by (simp add: is_numeric_string_def isdigit_def str_replace_all_char str_replace_first_char
      list_all_iff Let_def)

lemma second_occurrence_stays:
  "2 \<le> length (filter (\<lambda>c. c = a) xs) \<Longrightarrow> a \<in> set (remove1 a xs)"
proof (induction xs)
  case Nil
  then show ?case by simp
next
  case (Cons x xs)
  show ?case
  proof (cases "x = a")
    case True
    with Cons.prems have "filter (\<lambda>c. c = a) xs \<noteq> []" by auto
    then have "a \<in> set xs" by (auto simp: filter_empty_conv)
    with True show ?thesis by simp
  next
    case False
    with Cons show ?thesis by simp
  qed
qed

lemma two_separators_rejected:
  assumes "2 \<le> length (filter (\<lambda>c. c = CHR '','' \<or> c = CHR ''.'') s)"
  shows "\<not> is_numeric_string s"
proof -
  let ?m = "map (\<lambda>c. if c = CHR '','' then CHR ''.'' else c) s"
  have "filter (\<lambda>c. c = CHR ''.'') ?m
      = map (\<lambda>c. CHR ''.'') (filter (\<lambda>c. c = CHR '','' \<or> c = CHR ''.'') s)"
    by (induction s) auto
  then have "2 \<le> length (filter (\<lambda>c. c = CHR ''.'') ?m)"
    using assms by simp
  then have "CHR ''.'' \<in> set (remove1 (CHR ''.'') ?m)"
    by (rule second_occurrence_stays)
  moreover have "\<not> is_digit (CHR ''.'')"
    by (simp add: is_digit_def)
  ultimately show ?thesis
    by (auto simp: is_numeric_string_chars Let_def)
qed

lemma cleanup_fields:
  "cleanup r =
     \<lparr>meter_pr_rulle = (if is_numeric_string (meter_pr_rulle r) then meter_pr_rulle r else ''''),
      basisenhed = (if basisenhed r \<in> {''MTR'', ''Mtr.''} then basisenhed r else '''')\<rparr>"
  by (cases r) (simp add: cleanup_def)

lemma assign_cell_in_range:
  "i < length cells \<Longrightarrow>
   assign_cell key cells i result = Inr (set_field key (strip (cell_text (cells ! i))) result)"
  by (simp add: assign_cell_def cell_at_def)

lemma two_stage_lookup_miss:
  "\<not> ((\<exists>i. col_map header = Some i \<and> i < length cells) \<or> fallback < length cells) \<Longrightarrow>
   two_stage_lookup col_map cells header fallback = ''''"
  by (cases "col_map header") (simp_all add: two_stage_lookup_def)

lemma fill_field_meter:
  "fill_field col_map cells header Meter_pr_rulle result =
     Inr (if (\<exists>i. col_map header = Some i \<and> i < length cells) \<or> 4 < length cells
          then result\<lparr>meter_pr_rulle := two_stage_lookup col_map cells header 4\<rparr>
          else result)"
  by (cases "col_map header")
     (simp_all add: fill_field_def two_stage_lookup_def assign_cell_in_range set_field_def)

lemma fill_field_basisenhed:
  "fill_field col_map cells header Basisenhed result =
     Inr (if (\<exists>i. col_map header = Some i \<and> i < length cells) \<or> 6 < length cells
          then result\<lparr>basisenhed := two_stage_lookup col_map cells header 6\<rparr>
          else result)"
  by (cases "col_map header")
     (simp_all add: fill_field_def two_stage_lookup_def assign_cell_in_range set_field_def)

lemma fill_fields_desired:
  "fill_fields col_map cells desired empty_metrics =
     Inr \<lparr>meter_pr_rulle = two_stage_lookup col_map cells ''meter pr. rulle'' 4,
          basisenhed = two_stage_lookup col_map cells ''basisenhed'' 6\<rparr>"
  by (simp add: desired_def fill_field_meter fill_field_basisenhed empty_metrics_def
      two_stage_lookup_miss)

lemma fill_field_h1_eq: "fill_field_h1 col_map cells header key result
    = fill_field col_map cells header key result"
  by (cases key) (simp_all add: fill_field_h1_def fill_field_def Let_def)

lemma fill_fields_h1_eq: "fill_fields_h1 col_map cells hs result
    = fill_fields col_map cells hs result"
  by (induction hs arbitrary: result) (auto simp: fill_field_h1_eq split: sum.splits)

lemma extract_metrics_miss:
  "locate_row t varenr = None \<Longrightarrow> extract_metrics t varenr = Inr empty_metrics"
  by (simp add: extract_metrics_def)

lemma extract_metrics_located:
  "locate_row t varenr = Some r \<Longrightarrow>
   extract_metrics t varenr =
     Inr (cleanup
       \<lparr>meter_pr_rulle = two_stage_lookup (build_col_map t) (tds r) ''meter pr. rulle'' 4,
        basisenhed = two_stage_lookup (build_col_map t) (tds r) ''basisenhed'' 6\<rparr>)"
  by (simp add: extract_metrics_def fill_fields_desired)

lemma extract_metrics_returns: "\<exists>r. extract_metrics t varenr = Inr r"
  by (cases "locate_row t varenr") (simp_all add: extract_metrics_miss extract_metrics_located)

lemma extract_table_metrics_returns: "\<exists>r. extract_table_metrics t product_number = Inr r"
  by (cases "locate_row t product_number")
     (simp_all add: extract_table_metrics_def fill_fields_h1_eq fill_fields_desired)

lemma locate_row_product_page:
  "locate_row (product_page ''A1'' ''12,5'' ''Stk'') ''A1''
     = Some [td ''A1'', td ''Tape'', td ''10,00'', td ''3'', td ''12,5'', td ''1'', td ''Stk'']"
  by code_simp

lemma locate_row_empty_page: "locate_row \<lparr>thead = [], tbody = []\<rparr> ''B9'' = None"
  by code_simp

text \<open>
  C1. For every table and identifier \<open>extract_metrics\<close> returns a record of the two
  fields and raises nothing; when neither the exact nor the substring lookup finds a
  row, both fields of the record are the empty string.
\<close>

theorem extract_metrics_never_raises:
  "(\<exists>r. extract_metrics t varenr = Inr r) \<and>
   (\<exists>r. extract_table_metrics t varenr = Inr r) \<and>
   (locate_row t varenr = None \<longrightarrow>
      extract_metrics t varenr = Inr \<lparr>meter_pr_rulle = '''', basisenhed = ''''\<rparr> \<and>
      extract_table_metrics t varenr = Inr \<lparr>meter_pr_rulle = '''', basisenhed = ''''\<rparr>)"
  using extract_metrics_returns [of t varenr] extract_table_metrics_returns [of t varenr]
  by (simp add: extract_metrics_miss empty_metrics_def extract_table_metrics_def)

theorem extract_metrics_never_raises_witness:
  "locate_row \<lparr>thead = [], tbody = []\<rparr> ''B9'' = None \<and>
   extract_metrics \<lparr>thead = [], tbody = []\<rparr> ''B9''
     = Inr \<lparr>meter_pr_rulle = '''', basisenhed = ''''\<rparr>"
  using extract_metrics_never_raises [of "\<lparr>thead = [], tbody = []\<rparr>" "''B9''"]
    locate_row_empty_page
  by simp

text \<open>
  C3. After the fields of a located row are read, the meters per roll are kept only
  when they pass the numeric test and the base unit only when it is "MTR" or "Mtr.";
  a field that fails is the empty string and nothing is raised. A row with the base
  unit "MTR" gives "MTR", one with "Stk" gives the empty string.
\<close>

theorem validation_resets_fields:
  "(locate_row t varenr = Some r \<longrightarrow>
      (\<exists>raw. fill_fields (build_col_map t) (tds r) desired empty_metrics = Inr raw \<and>
         extract_metrics t varenr =
           Inr \<lparr>meter_pr_rulle =
                  (if is_numeric_string (meter_pr_rulle raw) then meter_pr_rulle raw else ''''),
                basisenhed =
                  (if basisenhed raw \<in> {''MTR'', ''Mtr.''} then basisenhed raw else '''')\<rparr>)) \<and>
   extract_metrics (product_page ''A1'' ''12,5'' ''MTR'') ''A1''
     = Inr \<lparr>meter_pr_rulle = ''12,5'', basisenhed = ''MTR''\<rparr> \<and>
   extract_metrics (product_page ''A1'' ''12,5'' ''Stk'') ''A1''
     = Inr \<lparr>meter_pr_rulle = ''12,5'', basisenhed = ''''\<rparr>"
proof (intro conjI impI)
  assume located: "locate_row t varenr = Some r"
  obtain raw where raw: "fill_fields (build_col_map t) (tds r) desired empty_metrics = Inr raw"
    by (simp add: fill_fields_desired)
  then have "extract_metrics t varenr = Inr (cleanup raw)"
    using located by (simp add: extract_metrics_def)
  with raw show "\<exists>raw. fill_fields (build_col_map t) (tds r) desired empty_metrics = Inr raw \<and>
      extract_metrics t varenr =
        Inr \<lparr>meter_pr_rulle =
               (if is_numeric_string (meter_pr_rulle raw) then meter_pr_rulle raw else ''''),
             basisenhed =
               (if basisenhed raw \<in> {''MTR'', ''Mtr.''} then basisenhed raw else '''')\<rparr>"
    by (auto simp: cleanup_fields)
next
  show "extract_metrics (product_page ''A1'' ''12,5'' ''MTR'') ''A1''
     = Inr \<lparr>meter_pr_rulle = ''12,5'', basisenhed = ''MTR''\<rparr>"
    by code_simp
next
  show "extract_metrics (product_page ''A1'' ''12,5'' ''Stk'') ''A1''
     = Inr \<lparr>meter_pr_rulle = ''12,5'', basisenhed = ''''\<rparr>"
    by code_simp
qed

theorem validation_resets_fields_witness:
  "locate_row (product_page ''A1'' ''12,5'' ''Stk'') ''A1''
     = Some [td ''A1'', td ''Tape'', td ''10,00'', td ''3'', td ''12,5'', td ''1'', td ''Stk''] \<and>
   (\<exists>raw. fill_fields (build_col_map (product_page ''A1'' ''12,5'' ''Stk''))
            (tds [td ''A1'', td ''Tape'', td ''10,00'', td ''3'', td ''12,5'', td ''1'', td ''Stk''])
            desired empty_metrics = Inr raw \<and>
      extract_metrics (product_page ''A1'' ''12,5'' ''Stk'') ''A1'' =
        Inr \<lparr>meter_pr_rulle =
               (if is_numeric_string (meter_pr_rulle raw) then meter_pr_rulle raw else ''''),
             basisenhed =
               (if basisenhed raw \<in> {''MTR'', ''Mtr.''} then basisenhed raw else '''')\<rparr>)"
  using validation_resets_fields [of "product_page ''A1'' ''12,5'' ''Stk''" "''A1''"
      "[td ''A1'', td ''Tape'', td ''10,00'', td ''3'', td ''12,5'', td ''1'', td ''Stk'']"]
    locate_row_product_page
  by blast

text \<open>
  C4. For every column map and every located row, the loop over the desired fields
  gives each field the value of the two-stage lookup: the cell at the index the
  column map has for the header name, when that index is within the row; otherwise the
  cell at the fallback index (4 for meters per roll, 6 for the base unit), when that is
  within the row; otherwise the empty string. \<open>extract_metrics\<close> returns these values
  after validation.
\<close>

theorem two_stage_field_resolution:
  "fill_fields col_map cells desired empty_metrics =
     Inr \<lparr>meter_pr_rulle = two_stage_lookup col_map cells ''meter pr. rulle'' 4,
          basisenhed = two_stage_lookup col_map cells ''basisenhed'' 6\<rparr> \<and>
   fill_fields_h1 col_map cells desired empty_metrics =
     Inr \<lparr>meter_pr_rulle = two_stage_lookup col_map cells ''meter pr. rulle'' 4,
          basisenhed = two_stage_lookup col_map cells ''basisenhed'' 6\<rparr> \<and>
   (locate_row t varenr = Some r \<longrightarrow>
      extract_metrics t varenr =
        Inr (cleanup
          \<lparr>meter_pr_rulle = two_stage_lookup (build_col_map t) (tds r) ''meter pr. rulle'' 4,
           basisenhed = two_stage_lookup (build_col_map t) (tds r) ''basisenhed'' 6\<rparr>))"
  by (simp add: fill_fields_h1_eq fill_fields_desired extract_metrics_located)

theorem two_stage_field_resolution_witness:
  "locate_row (product_page ''A1'' ''12,5'' ''Stk'') ''A1''
     = Some [td ''A1'', td ''Tape'', td ''10,00'', td ''3'', td ''12,5'', td ''1'', td ''Stk''] \<and>
   extract_metrics (product_page ''A1'' ''12,5'' ''Stk'') ''A1'' =
     Inr (cleanup
       \<lparr>meter_pr_rulle = two_stage_lookup (build_col_map (product_page ''A1'' ''12,5'' ''Stk''))
          (tds [td ''A1'', td ''Tape'', td ''10,00'', td ''3'', td ''12,5'', td ''1'', td ''Stk''])
          ''meter pr. rulle'' 4,
        basisenhed = two_stage_lookup (build_col_map (product_page ''A1'' ''12,5'' ''Stk''))
          (tds [td ''A1'', td ''Tape'', td ''10,00'', td ''3'', td ''12,5'', td ''1'', td ''Stk''])
          ''basisenhed'' 6\<rparr>)"
  using two_stage_field_resolution [of Map.empty "[]" "product_page ''A1'' ''12,5'' ''Stk''"
      "''A1''" "[td ''A1'', td ''Tape'', td ''10,00'', td ''3'', td ''12,5'', td ''1'', td ''Stk'']"]
    locate_row_product_page
  by blast

text \<open>
  C10. The numeric test accepts a string exactly when, with every comma turned into
  a dot and the first dot then removed, what is left is not empty and holds digits
  only. So "12,5" passes and is stored as it is, comma included; a string with two or
  more separators, such as "1.2.3", a signed one, such as "-5", and the empty string are
  rejected, and the field is then the empty string.
\<close>

theorem numeric_string_rule:
  "is_numeric_string s =
     (let t = remove1 (CHR ''.'') (map (\<lambda>c. if c = CHR '','' then CHR ''.'' else c) s)
      in t \<noteq> [] \<and> (\<forall>c \<in> set t. is_digit c)) \<and>
   (2 \<le> length (filter (\<lambda>c. c = CHR '','' \<or> c = CHR ''.'') s) \<longrightarrow> \<not> is_numeric_string s) \<and>
   meter_pr_rulle (cleanup r) =
     (if is_numeric_string (meter_pr_rulle r) then meter_pr_rulle r else '''') \<and>
   is_numeric_string ''12,5'' \<and>
   extract_metrics (product_page ''A1'' ''12,5'' ''MTR'') ''A1''
     = Inr \<lparr>meter_pr_rulle = ''12,5'', basisenhed = ''MTR''\<rparr> \<and>
   \<not> is_numeric_string ''1.2.3'' \<and> \<not> is_numeric_string ''-5'' \<and> \<not> is_numeric_string ''''"
proof (intro conjI impI)
  show "extract_metrics (product_page ''A1'' ''12,5'' ''MTR'') ''A1''
     = Inr \<lparr>meter_pr_rulle = ''12,5'', basisenhed = ''MTR''\<rparr>"
    by code_simp
qed (simp_all add: is_numeric_string_chars [symmetric] two_separators_rejected cleanup_fields,
     simp_all add: is_numeric_string_def isdigit_def is_digit_def)

theorem numeric_string_rule_witness:
  "2 \<le> length (filter (\<lambda>c. c = CHR '','' \<or> c = CHR ''.'') ''1.2.3'') \<and>
   \<not> is_numeric_string ''1.2.3''"
proof -
  have h: "2 \<le> length (filter (\<lambda>c. c = CHR '','' \<or> c = CHR ''.'') ''1.2.3'')"
    by simp
  from numeric_string_rule [of "''1.2.3''" empty_metrics] h show ?thesis
    by blast
qed

section \<open>Properties of the work list\<close>

lemma to_scrape_sorted: "sorted (to_scrape full_list exclude_list)"
  by (simp add: to_scrape_def sorted_wrt_filter)

lemma to_scrape_distinct: "distinct (to_scrape full_list exclude_list)"
  by (simp add: to_scrape_def)

lemma to_scrape_set:
  "finite full_list \<Longrightarrow>
   set (to_scrape full_list exclude_list)
     = {v \<in> full_list - exclude_list. \<not> startswith v ''25''}"
  by (auto simp: to_scrape_def)

lemma to_scrape_length:
  "finite full_list \<Longrightarrow>
   length (to_scrape full_list exclude_list)
     = card {v \<in> full_list - exclude_list. \<not> startswith v ''25''}"
  using to_scrape_set [of full_list exclude_list] to_scrape_distinct [of full_list exclude_list]
  by (metis distinct_card)

text \<open>
  C2. For all finite sets of identifiers the work list is the sorted sequence of the
  set difference, filtered after the sort by the prefix "25": it is sorted in the
  lexicographic order of strings, has no duplicates, holds exactly the identifiers of
  the difference that do not start with "25" (so its length is their number), and holds
  no element of the exclusion set. For \<open>{"A1", "A2", "25X"}\<close> without \<open>{"A2"}\<close> it is
  \<open>["A1"]\<close>.
\<close>

theorem work_list_is_sorted_difference:
  assumes "finite full_list"
  shows "to_scrape full_list exclude_list
           = filter (\<lambda>v. \<not> startswith v ''25'') (sorted_list_of_set (full_list - exclude_list)) \<and>
         sorted (to_scrape full_list exclude_list) \<and>
         distinct (to_scrape full_list exclude_list) \<and>
         set (to_scrape full_list exclude_list)
           = {v \<in> full_list - exclude_list. \<not> startswith v ''25''} \<and>
         length (to_scrape full_list exclude_list)
           = card {v \<in> full_list - exclude_list. \<not> startswith v ''25''} \<and>
         set (to_scrape full_list exclude_list) \<inter> exclude_list = {} \<and>
         to_scrape {''A1'', ''A2'', ''25X''} {''A2''} = [''A1'']"
proof (intro conjI)
  show "to_scrape full_list exclude_list
      = filter (\<lambda>v. \<not> startswith v ''25'') (sorted_list_of_set (full_list - exclude_list))"
    by (simp add: to_scrape_def)
  show "set (to_scrape full_list exclude_list) \<inter> exclude_list = {}"
    using assms by (auto simp: to_scrape_set)
  show "to_scrape {''A1'', ''A2'', ''25X''} {''A2''} = [''A1'']"
    by code_simp
qed (simp_all add: assms to_scrape_sorted to_scrape_distinct to_scrape_set to_scrape_length)

theorem work_list_is_sorted_difference_witness:
  "finite {''A1'', ''A2'', ''25X''} \<and>
   to_scrape {''A1'', ''A2'', ''25X''} {''A2''} = [''A1''] \<and>
   set (to_scrape {''A1'', ''A2'', ''25X''} {''A2''}) \<inter> {''A2''} = {}"
proof -
  have h: "finite {''A1'', ''A2'', ''25X''}"
    by simp
  from work_list_is_sorted_difference [OF h, of "{''A2''}"] h show ?thesis
    by blast
qed

section \<open>Properties of the loader\<close>

lemma dropna_set: "set (dropna col) = {v. Some v \<in> set col}"
  by (induction col rule: dropna.induct) auto

lemma dropna_map_Some: "dropna (map Some xs) = xs"
  by (induction xs) auto

lemma drop_duplicates_seen_set: "set (drop_duplicates_seen seen xs) = set xs - set seen"
  by (induction seen xs rule: drop_duplicates_seen.induct) auto

lemma drop_duplicates_set: "set (drop_duplicates xs) = set xs"
  by (simp add: drop_duplicates_def drop_duplicates_seen_set)

lemma dropWhile_fixed: "xs = [] \<or> \<not> P (hd xs) \<Longrightarrow> dropWhile P xs = xs"
  by (cases xs) auto

lemma strip_by_ends:
  "strip_by sp s = [] \<or> (\<not> sp (hd (strip_by sp s)) \<and> \<not> sp (last (strip_by sp s)))"
proof (cases "strip_by sp s = []")
  case True
  then show ?thesis by simp
next
  case False
  let ?u = "dropWhile sp s"
  let ?v = "dropWhile sp (rev ?u)"
  from False have v: "?v \<noteq> []" by (simp add: strip_by_def)
  then have "\<not> sp (hd ?v)" by (rule hd_dropWhile)
  then have l: "\<not> sp (last (strip_by sp s))"
    using v by (simp add: strip_by_def last_rev)
  have u: "?u \<noteq> []"
  proof
    assume e: "?u = []"
    have "?v = []" unfolding e by simp
    with v show False by simp
  qed
  then have hu: "\<not> sp (hd ?u)" by (rule hd_dropWhile)
  obtain ys where ys: "rev ?u = ys @ ?v"
    by (metis takeWhile_dropWhile_id)
  then have "?u = rev ?v @ rev ys" by (metis rev_append rev_rev_ident)
  then have "hd ?u = hd (rev ?v)" using v by (metis hd_append2 rev_is_Nil_conv)
  with hu have "\<not> sp (hd (strip_by sp s))" by (simp add: strip_by_def)
  with l show ?thesis by simp
qed

lemma strip_by_idem: "strip_by sp (strip_by sp s) = strip_by sp s"
proof (cases "strip_by sp s = []")
  case True
  have "strip_by sp [] = []" by (simp add: strip_by_def)
  with True show ?thesis by simp
next
  case False
  let ?t = "strip_by sp s"
  from False strip_by_ends [of sp s] have h: "\<not> sp (hd ?t)" and l: "\<not> sp (last ?t)"
    by auto
  have "dropWhile sp ?t = ?t" using h by (simp add: dropWhile_fixed)
  moreover have "dropWhile sp (rev ?t) = rev ?t"
    using l False by (simp add: dropWhile_fixed hd_rev)
  ultimately show ?thesis
    by (simp add: strip_by_def [of sp ?t])
qed

lemma strip_idem: "strip (strip s) = strip s"
  by (simp add: strip_def strip_by_idem)

lemma load_varenr_column:
  "fs path = Some df \<Longrightarrow> df ''Varenr.'' = Some col \<Longrightarrow>
   load_varenr astype_str fs path
     = Inr {s. s \<noteq> '''' \<and> (\<exists>v. Some v \<in> set col \<and> s = strip (astype_str v))}"
  by (auto simp: load_varenr_def drop_duplicates_set dropna_set)

lemma load_varenr_normal:
  assumes "load_varenr astype_str fs path = Inr S"
  shows "'''' \<notin> S" and "strip ` S = S"
proof -
  from assms obtain df col where df: "fs path = Some df" and col: "df ''Varenr.'' = Some col"
    by (auto simp: load_varenr_def split: option.splits)
  from load_varenr_column [where fs = fs and path = path and df = df and col = col
      and astype_str = astype_str] df col assms
  have S: "S = {s. s \<noteq> '''' \<and> (\<exists>v. Some v \<in> set col \<and> s = strip (astype_str v))}"
    by simp
  then show "'''' \<notin> S" by simp
  have "strip s = s" if "s \<in> S" for s
    using that S by (auto simp: strip_idem)
  then show "strip ` S = S" by force
qed

text \<open>
  C8. The loader fails with FileNotFoundError when the path is not an existing file,
  and with KeyError when the data frame has no column "Varenr."; otherwise it returns
  the set of the non-null cells of the column, rendered as strings and stripped,
  without the empty string. Loading is a function of the source, so loading twice
  gives the same set, and a source that lists the loaded identifiers loads to the same
  set again.
\<close>

theorem load_varenr_contract:
  "(fs path = None \<longrightarrow> load_varenr astype_str fs path = Inl FileNotFoundError) \<and>
   (fs path = Some df \<and> df ''Varenr.'' = None \<longrightarrow>
      load_varenr astype_str fs path = Inl KeyError) \<and>
   (fs path = Some df \<and> df ''Varenr.'' = Some col \<longrightarrow>
      load_varenr astype_str fs path
        = Inr {s. s \<noteq> '''' \<and> (\<exists>v. Some v \<in> set col \<and> s = strip (astype_str v))} \<and>
      load_varenr astype_str fs path
        = Inr (set (remdups (filter (\<lambda>s. s \<noteq> '''')
                 (map strip (map astype_str (dropna col))))))) \<and>
   (load_varenr astype_str fs path = Inr S \<and> set xs = S \<longrightarrow>
      load_varenr astype_str fs path = Inr S \<and>
      load_varenr (\<lambda>s. s) [path' \<mapsto> [''Varenr.'' \<mapsto> map Some xs]] path' = Inr S)"
proof (intro conjI impI)
  assume a: "load_varenr astype_str fs path = Inr S \<and> set xs = S"
  then have ne: "'''' \<notin> S" and im: "strip ` S = S"
    using load_varenr_normal [of astype_str fs path S] by simp_all
  have "set (filter (\<lambda>v. v \<noteq> '''') (map strip xs)) = {s \<in> strip ` S. s \<noteq> ''''}"
    using a by auto
  also have "\<dots> = S"
    unfolding im using ne by auto
  finally have "set (filter (\<lambda>v. v \<noteq> '''') (map strip xs)) = S" .
  then show "load_varenr (\<lambda>s. s) [path' \<mapsto> [''Varenr.'' \<mapsto> map Some xs]] path' = Inr S"
    by (simp add: load_varenr_def drop_duplicates_set dropna_map_Some)
qed (auto simp: load_varenr_def drop_duplicates_set dropna_set)

theorem load_varenr_contract_witness:
  "example_fs ''missing.xlsx'' = None \<and>
   load_varenr (\<lambda>s. s) example_fs ''missing.xlsx'' = Inl FileNotFoundError \<and>
   load_varenr (\<lambda>s. s) example_fs ''bad.xlsx'' = Inl KeyError \<and>
   load_varenr (\<lambda>s. s) example_fs ''full.xlsx'' = Inr {''A1'', ''A2''}"
proof -
  let ?bad = "[''Navn'' \<mapsto> [Some ''Tape'']] :: string dataframe"
  let ?col = "[Some '' A1 '', None, Some ''A2'', Some ''  '', Some ''A1'']"
  let ?full = "[''Varenr.'' \<mapsto> ?col] :: string dataframe"
  have h1: "example_fs ''missing.xlsx'' = None"
    by (simp add: example_fs_def)
  have h2: "example_fs ''bad.xlsx'' = Some ?bad \<and> ?bad ''Varenr.'' = None"
    by (simp add: example_fs_def)
  have h3: "example_fs ''full.xlsx'' = Some ?full \<and> ?full ''Varenr.'' = Some ?col"
    by (simp add: example_fs_def)
  have a: "load_varenr (\<lambda>s. s) example_fs ''missing.xlsx'' = Inl FileNotFoundError"
    using load_varenr_contract [of example_fs "''missing.xlsx''" "\<lambda>s. s"] h1 by blast
  have b: "load_varenr (\<lambda>s. s) example_fs ''bad.xlsx'' = Inl KeyError"
    using load_varenr_contract [of example_fs "''bad.xlsx''" "\<lambda>s. s" ?bad] h2 by blast
  have "load_varenr (\<lambda>s. s) example_fs ''full.xlsx''
        = Inr (set (remdups (filter (\<lambda>s. s \<noteq> '''') (map strip (map (\<lambda>s. s) (dropna ?col))))))"
    using load_varenr_contract [of example_fs "''full.xlsx''" "\<lambda>s. s" ?full ?col] h3 by blast
  also have "set (remdups (filter (\<lambda>s. s \<noteq> '''') (map strip (map (\<lambda>s. s) (dropna ?col)))))
        = {''A1'', ''A2''}"
    by (auto simp: strip_def strip_by_def is_space_def)
  finally show ?thesis using h1 a b by simp
qed

section \<open>Properties of the scraping loop\<close>

lemma search_and_open_product_results:
  "search_and_open_product web varenr st = Inr (found, st1) \<Longrightarrow> results st1 = results st"
  by (auto simp: search_and_open_product_def sleep_def split: search_outcome.splits)

lemma search_and_open_product_delays:
  "search_and_open_product web varenr st = Inr (found, st1) \<Longrightarrow>
   item_delays st1 = item_delays st"
  by (auto simp: search_and_open_product_def sleep_def item_delays_def
      split: search_outcome.splits)

lemma scrape_loop_results:
  "scrape_loop web ws st = Inr st' \<Longrightarrow>
   map Varenr (results st') = map Varenr (results st) @ ws"
proof (induction ws arbitrary: st)
  case Nil
  then show ?case by simp
next
  case (Cons v ws)
  from Cons.prems obtain found st1 where
    s: "search_and_open_product web v st = Inr (found, st1)"
    by (auto simp: Let_def split: sum.splits prod.splits)
  have r: "results st1 = results st"
    using s by (rule search_and_open_product_results)
  show ?case
  proof (cases found)
    case None
    with Cons.prems s have
      "scrape_loop web ws
         (st1\<lparr>results := results st1 @ [\<lparr>meter_pr_rulle = '''', basisenhed = '''', Varenr = v\<rparr>]\<rparr>)
       = Inr st'"
      by (simp add: Let_def)
    from Cons.IH [OF this] r show ?thesis by simp
  next
    case (Some t)
    with Cons.prems s obtain m where
      "scrape_loop web ws
         (st1\<lparr>results := results st1 @
            [update_entry \<lparr>meter_pr_rulle = '''', basisenhed = '''', Varenr = v\<rparr> m]\<rparr>)
       = Inr st'"
      by (auto simp: Let_def split: sum.splits)
    from Cons.IH [OF this] r show ?thesis by (simp add: update_entry_def)
  qed
qed

lemma scrape_loop_delays:
  "scrape_loop web ws st = Inr st' \<Longrightarrow> item_delays st' = item_delays st"
proof (induction ws arbitrary: st)
  case Nil
  then show ?case by simp
next
  case (Cons v ws)
  from Cons.prems obtain found st1 where
    s: "search_and_open_product web v st = Inr (found, st1)"
    by (auto simp: Let_def split: sum.splits prod.splits)
  have r: "item_delays st1 = item_delays st"
    using s by (rule search_and_open_product_delays)
  show ?case
  proof (cases found)
    case None
    with Cons.prems s have
      "scrape_loop web ws
         (st1\<lparr>results := results st1 @ [\<lparr>meter_pr_rulle = '''', basisenhed = '''', Varenr = v\<rparr>]\<rparr>)
       = Inr st'"
      by (simp add: Let_def)
    from Cons.IH [OF this] r show ?thesis by (simp add: item_delays_def)
  next
    case (Some t)
    with Cons.prems s obtain m where
      "scrape_loop web ws
         (st1\<lparr>results := results st1 @
            [update_entry \<lparr>meter_pr_rulle = '''', basisenhed = '''', Varenr = v\<rparr> m]\<rparr>)
       = Inr st'"
      by (auto simp: Let_def split: sum.splits)
    from Cons.IH [OF this] r show ?thesis by (simp add: item_delays_def)
  qed
qed

lemma scrape_loop_completes:
  "\<forall>v \<in> set ws. web v \<noteq> Crashed \<Longrightarrow> \<exists>st'. scrape_loop web ws st = Inr st'"
proof (induction ws arbitrary: st)
  case Nil
  then show ?case by simp
next
  case (Cons v ws)
  then have IH: "\<And>st. \<exists>st'. scrape_loop web ws st = Inr st'" by simp
  from Cons.prems have nc: "web v \<noteq> Crashed" by simp
  show ?case
  proof (cases "web v")
    case (Opened t)
    obtain m where "extract_metrics t v = Inr m"
      using extract_metrics_returns by blast
    with Opened show ?thesis
      using IH by (simp add: search_and_open_product_def sleep_def Let_def)
  next
    case Timeout
    then show ?thesis
      using IH by (simp add: search_and_open_product_def Let_def)
  next
    case Crashed
    with nc show ?thesis by simp
  qed
qed

text \<open>
  C5. At the end of a completed run the result buffer holds one record for each work
  item, in the order of the work list: it is as long as the work list, the
  identifiers of its records are the work items, and no identifier occurs twice when
  the work list has none twice, as is the case for the work list the differ makes. A
  run completes when no search fails outside a timeout.
\<close>

theorem one_record_per_work_item:
  "(scrape_loop web ws new_run = Inr st \<longrightarrow>
      length (results st) = length ws \<and>
      map Varenr (results st) = ws \<and>
      set (map Varenr (results st)) \<subseteq> set ws \<and>
      (distinct ws \<longrightarrow> distinct (map Varenr (results st)))) \<and>
   (scrape_loop web (to_scrape full_list exclude_list) new_run = Inr st' \<longrightarrow>
      distinct (map Varenr (results st'))) \<and>
   ((\<forall>v \<in> set ws. web v \<noteq> Crashed) \<longrightarrow> (\<exists>st. scrape_loop web ws new_run = Inr st))"
proof (intro conjI impI)
  assume a: "scrape_loop web ws new_run = Inr st"
  from scrape_loop_results [OF a] show ids: "map Varenr (results st) = ws"
    by (simp add: new_run_def)
  from ids show "length (results st) = length ws"
    by (metis length_map)
  from ids show "set (map Varenr (results st)) \<subseteq> set ws"
    by simp
  assume "distinct ws"
  with ids show "distinct (map Varenr (results st))"
    by simp
next
  assume a: "scrape_loop web (to_scrape full_list exclude_list) new_run = Inr st'"
  from scrape_loop_results [OF a] have "map Varenr (results st') = to_scrape full_list exclude_list"
    by (simp add: new_run_def)
  then show "distinct (map Varenr (results st'))"
    by (simp add: to_scrape_distinct)
next
  assume "\<forall>v \<in> set ws. web v \<noteq> Crashed"
  then show "\<exists>st. scrape_loop web ws new_run = Inr st"
    by (rule scrape_loop_completes)
qed

lemma scrape_loop_example:
  "scrape_loop example_site [''A1'', ''B9''] new_run =
     Inr \<lparr>results = [\<lparr>meter_pr_rulle = ''12,5'', basisenhed = ''MTR'', Varenr = ''A1''\<rparr>,
                     \<lparr>meter_pr_rulle = '''', basisenhed = '''', Varenr = ''B9''\<rparr>],
          slept = [(In_search, 1 / 2)]\<rparr>"
  by code_simp

theorem one_record_per_work_item_witness:
  "scrape_loop example_site [''A1'', ''B9''] new_run =
     Inr \<lparr>results = [\<lparr>meter_pr_rulle = ''12,5'', basisenhed = ''MTR'', Varenr = ''A1''\<rparr>,
                     \<lparr>meter_pr_rulle = '''', basisenhed = '''', Varenr = ''B9''\<rparr>],
          slept = [(In_search, 1 / 2)]\<rparr> \<and>
   distinct [''A1'', ''B9''] \<and>
   map Varenr [\<lparr>meter_pr_rulle = ''12,5'', basisenhed = ''MTR'', Varenr = ''A1''\<rparr>,
               \<lparr>meter_pr_rulle = '''', basisenhed = '''', Varenr = ''B9''\<rparr>] = [''A1'', ''B9'']"
  using one_record_per_work_item [of example_site "[''A1'', ''B9'']"
      "\<lparr>results = [\<lparr>meter_pr_rulle = ''12,5'', basisenhed = ''MTR'', Varenr = ''A1''\<rparr>,
                   \<lparr>meter_pr_rulle = '''', basisenhed = '''', Varenr = ''B9''\<rparr>],
        slept = [(In_search, 1 / 2)]\<rparr>"]
    scrape_loop_example
  by simp

section \<open>Properties of the sink\<close>

lemma write_outputs_never_raises:
  "\<exists>s'. write_outputs rs path s = Inr s' \<and> (\<not> writable s path \<longrightarrow> files s' = files s)"
  by (simp add: write_outputs_def to_excel_def logging_def)

lemma write_excel_raises:
  "rs \<noteq> [] \<Longrightarrow> \<not> writable s path \<Longrightarrow> write_excel rs path s = Inl OSError"
  by (simp add: write_excel_def to_excel_def)

text \<open>
  C6. The flush of meter_pr_rulle_script.py does raise: with a result to write and a
  path that cannot be written, \<open>write_excel\<close> lets the exception of \<open>to_excel\<close> through,
  and the final flush of \<open>main\<close> ends the run with it. \<open>write_outputs\<close> of
  H1_scraper_script.py, on the same input, logs the failure and returns.
\<close>

theorem write_excel_raises_on_write_failure:
  "write_excel one_result ''results_new.xlsx'' locked_storage = Inl OSError \<and>
   main_cleanup one_result ''results_new.xlsx'' (running locked_storage) = Inl OSError \<and>
   write_outputs one_result ''results_new.xlsx'' locked_storage
     = Inr \<lparr>files = Map.empty, writable = (\<lambda>p. False), logged = [Failed_to_write OSError]\<rparr>"
  by (simp add: write_excel_def write_outputs_def to_excel_def logging_def locked_storage_def
      one_result_def main_cleanup_def final_write_def save_thread_join_def stop_event_set_def
      driver_quit_def running_def)

section \<open>Properties of the end of a run\<close>

lemma final_write_actions:
  "final_write writer rs path w = Inr w' \<Longrightarrow>
   actions w' = actions w @ [Final_write] \<and> browser_open w' = browser_open w \<and>
   stop_event w' = stop_event w \<and> save_thread_alive w' = save_thread_alive w"
  by (auto simp: final_write_def split: sum.splits)

lemma before_final_write:
  "actions (save_thread_join writer rs path (stop_event_set (driver_quit w)))
     = actions w @ [Driver_quit, Stop_event_set, Save_thread_join] \<and>
   \<not> browser_open (save_thread_join writer rs path (stop_event_set (driver_quit w))) \<and>
   stop_event (save_thread_join writer rs path (stop_event_set (driver_quit w))) \<and>
   \<not> save_thread_alive (save_thread_join writer rs path (stop_event_set (driver_quit w)))"
  by (simp add: save_thread_join_def stop_event_set_def driver_quit_def Let_def)

lemma cleanup_order:
  assumes "final_write writer rs path
             (save_thread_join writer rs path (stop_event_set (driver_quit w))) = Inr w'"
  shows "actions w' = actions w @ [Driver_quit, Stop_event_set, Save_thread_join, Final_write] \<and>
         \<not> browser_open w' \<and> stop_event w' \<and> \<not> save_thread_alive w'"
  using final_write_actions [OF assms] before_final_write [of writer rs path w]
  by simp

text \<open>
  C7, as the code has it. A completed run ends with these calls, in this order: the
  browser session is closed first, then the stop event is set, then the thread of
  the periodic save is joined, and only then the results are written a last time; at
  that write the browser is closed and the thread has ended, so that no periodic
  write interleaves with it. The final write of H1_scraper_script.py always returns.
\<close>

theorem shutdown_order:
  "(main_cleanup rs path w = Inr w' \<longrightarrow>
      actions w' = actions w @ [Driver_quit, Stop_event_set, Save_thread_join, Final_write] \<and>
      \<not> browser_open w' \<and> stop_event w' \<and> \<not> save_thread_alive w') \<and>
   (main_cleanup_h1 rs path w = Inr w'' \<longrightarrow>
      actions w'' = actions w @ [Driver_quit, Stop_event_set, Save_thread_join, Final_write] \<and>
      \<not> browser_open w'' \<and> stop_event w'' \<and> \<not> save_thread_alive w'') \<and>
   (\<exists>w''. main_cleanup_h1 rs path w = Inr w'') \<and>
   \<not> browser_open (save_thread_join write_excel rs path (stop_event_set (driver_quit w))) \<and>
   \<not> save_thread_alive (save_thread_join write_excel rs path (stop_event_set (driver_quit w)))"
proof (intro conjI impI)
  assume "main_cleanup rs path w = Inr w'"
  then have "final_write write_excel rs path
      (save_thread_join write_excel rs path (stop_event_set (driver_quit w))) = Inr w'"
    by (simp add: main_cleanup_def Let_def)
  from cleanup_order [OF this]
  show "actions w' = actions w @ [Driver_quit, Stop_event_set, Save_thread_join, Final_write]"
    and "\<not> browser_open w'" and "stop_event w'" and "\<not> save_thread_alive w'"
    by simp_all
next
  assume "main_cleanup_h1 rs path w = Inr w''"
  then have "final_write write_outputs rs path
      (save_thread_join write_outputs rs path (stop_event_set (driver_quit w))) = Inr w''"
    by (simp add: main_cleanup_h1_def Let_def)
  from cleanup_order [OF this]
  show "actions w'' = actions w @ [Driver_quit, Stop_event_set, Save_thread_join, Final_write]"
    and "\<not> browser_open w''" and "stop_event w''" and "\<not> save_thread_alive w''"
    by simp_all
next
  obtain s' where
    "write_outputs rs path
       (disk (save_thread_join write_outputs rs path (stop_event_set (driver_quit w)))) = Inr s'"
    using write_outputs_never_raises by blast
  then show "\<exists>w''. main_cleanup_h1 rs path w = Inr w''"
    by (simp add: main_cleanup_h1_def final_write_def Let_def)
qed (simp_all add: before_final_write)

lemma main_cleanup_example:
  "main_cleanup one_result ''results_new.xlsx'' (running open_storage) =
     Inr \<lparr>browser_open = False, stop_event = True, save_thread_alive = False,
          disk = \<lparr>files = [''results_new.xlsx'' \<mapsto> one_result], writable = (\<lambda>p. True),
                   logged = [Saved_rows 1 ''results_new.xlsx'', Periodic_save_complete,
                             Saved_rows 1 ''results_new.xlsx'', Done]\<rparr>,
          actions = [Driver_quit, Stop_event_set, Save_thread_join, Final_write]\<rparr>"
  by (simp add: write_excel_def to_excel_def logging_def open_storage_def
      one_result_def main_cleanup_def final_write_def save_thread_join_def stop_event_set_def
      driver_quit_def running_def)

theorem shutdown_order_witness:
  "main_cleanup one_result ''results_new.xlsx'' (running open_storage) =
     Inr \<lparr>browser_open = False, stop_event = True, save_thread_alive = False,
          disk = \<lparr>files = [''results_new.xlsx'' \<mapsto> one_result], writable = (\<lambda>p. True),
                   logged = [Saved_rows 1 ''results_new.xlsx'', Periodic_save_complete,
                             Saved_rows 1 ''results_new.xlsx'', Done]\<rparr>,
          actions = [Driver_quit, Stop_event_set, Save_thread_join, Final_write]\<rparr> \<and>
   actions (running open_storage) @ [Driver_quit, Stop_event_set, Save_thread_join, Final_write]
     = [Driver_quit, Stop_event_set, Save_thread_join, Final_write]"
  using shutdown_order [of one_result "''results_new.xlsx''" "running open_storage"
      "\<lparr>browser_open = False, stop_event = True, save_thread_alive = False,
        disk = \<lparr>files = [''results_new.xlsx'' \<mapsto> one_result], writable = (\<lambda>p. True),
                 logged = [Saved_rows 1 ''results_new.xlsx'', Periodic_save_complete,
                           Saved_rows 1 ''results_new.xlsx'', Done]\<rparr>,
        actions = [Driver_quit, Stop_event_set, Save_thread_join, Final_write]\<rparr>"]
    main_cleanup_example
  by simp

text \<open>
  C7, as the claim states it, fails: in a completed run the browser session is closed
  before the final write, not after it.
\<close>

theorem shutdown_order_counterexample:
  "map_sum id actions (main_cleanup one_result ''results_new.xlsx'' (running open_storage))
     = Inr [Driver_quit, Stop_event_set, Save_thread_join, Final_write] \<and>
   happens_before Driver_quit Final_write
     [Driver_quit, Stop_event_set, Save_thread_join, Final_write] \<and>
   \<not> happens_before Final_write Driver_quit
     [Driver_quit, Stop_event_set, Save_thread_join, Final_write]"
  by (simp add: main_cleanup_example)

section \<open>Properties of the delays\<close>

lemma uniform_within:
  assumes "a \<le> b" and "0 \<le> r" and "r \<le> 1"
  shows "a \<le> uniform a b r" and "uniform a b r \<le> b"
proof -
  from assms have "0 \<le> (b - a) * r"
    by simp
  then show "a \<le> uniform a b r"
    by (simp add: uniform_def)
  from assms have "(b - a) * r \<le> (b - a) * 1"
    by (intro mult_left_mono) simp_all
  then show "uniform a b r \<le> b"
    by (simp add: uniform_def)
qed

lemma search_and_open_product_h1_delays:
  "search_and_open_product_h1 web v st = Inr (found, st1) \<Longrightarrow>
   item_delays st1 = item_delays st"
  by (auto simp: search_and_open_product_h1_def sleep_def item_delays_def
      split: search_outcome.splits if_splits)

lemma search_and_open_product_h1_returns:
  "\<exists>found st1. search_and_open_product_h1 web v st = Inr (found, st1)"
  by (cases "web v") (simp_all add: search_and_open_product_h1_def sleep_def)

lemma h1_loop_step:
  assumes "h1_loop web mn mx random k (v # ws) st = Inr st'"
  shows "\<exists>st3. 0 \<le> uniform mn mx (random k) \<and>
           item_delays st3 = item_delays st @ [uniform mn mx (random k)] \<and>
           h1_loop web mn mx random (Suc k) ws st3 = Inr st'"
proof -
  obtain found st1 where s: "search_and_open_product_h1 web v st = Inr (found, st1)"
    using search_and_open_product_h1_returns by blast
  have d1: "item_delays st1 = item_delays st"
    using s by (rule search_and_open_product_h1_delays)
  from assms s obtain e where
    sl: "(case sleep After_item (uniform mn mx (random k)) (st1\<lparr>results := results st1 @ [e]\<rparr>) of
           Inl x \<Rightarrow> Inl x
         | Inr st3 \<Rightarrow> h1_loop web mn mx random (Suc k) ws st3) = Inr st'"
    by (auto simp: Let_def split: sum.splits option.splits)
  then have nn: "0 \<le> uniform mn mx (random k)"
    by (auto simp: sleep_def split: if_splits)
  let ?st3 = "(st1\<lparr>results := results st1 @ [e]\<rparr>)
                \<lparr>slept := slept (st1\<lparr>results := results st1 @ [e]\<rparr>)
                   @ [(After_item, uniform mn mx (random k))]\<rparr>"
  from sl nn have "h1_loop web mn mx random (Suc k) ws ?st3 = Inr st'"
    by (simp add: sleep_def)
  moreover have "item_delays ?st3 = item_delays st @ [uniform mn mx (random k)]"
    using d1 by (simp add: item_delays_def)
  ultimately show ?thesis
    using nn by blast
qed

lemma h1_loop_delays:
  "h1_loop web mn mx random k ws st = Inr st' \<Longrightarrow>
   item_delays st' = item_delays st @ map (\<lambda>i. uniform mn mx (random i)) [k ..< k + length ws]"
proof (induction ws arbitrary: k st)
  case Nil
  then show ?case by simp
next
  case (Cons v ws)
  from h1_loop_step [OF Cons.prems] obtain st3 where
    d: "item_delays st3 = item_delays st @ [uniform mn mx (random k)]" and
    l: "h1_loop web mn mx random (Suc k) ws st3 = Inr st'"
    by blast
  have e: "k + length (v # ws) = Suc k + length ws"
    by simp
  have "k < Suc k + length ws"
    by simp
  then have u: "[k ..< Suc k + length ws] = k # [Suc k ..< Suc k + length ws]"
    by (rule upt_conv_Cons)
  show ?case
    unfolding e u using Cons.IH [OF l] d by simp
qed

lemma h1_loop_completes:
  assumes "0 \<le> mn" and "mn \<le> mx" and "\<forall>i. 0 \<le> random i \<and> random i < 1"
  shows "\<exists>st'. h1_loop web mn mx random k ws st = Inr st'"
proof (induction ws arbitrary: k st)
  case Nil
  then show ?case by simp
next
  case (Cons v ws)
  obtain found st1 where s: "search_and_open_product_h1 web v st = Inr (found, st1)"
    using search_and_open_product_h1_returns by blast
  have "mn \<le> uniform mn mx (random k)"
    using assms by (intro uniform_within) (simp_all add: less_imp_le)
  with assms(1) have nn: "\<not> uniform mn mx (random k) < 0"
    by simp
  show ?case
  proof (cases found)
    case None
    with s nn Cons.IH show ?thesis
      by (simp add: Let_def sleep_def)
  next
    case (Some t)
    obtain m where "extract_table_metrics t v = Inr m"
      using extract_table_metrics_returns by blast
    with Some s nn Cons.IH show ?thesis
      by (simp add: Let_def sleep_def)
  qed
qed

text \<open>
  C9, as the code has it. H1_scraper_script.py sleeps, after every work item, the last
  one included, the delay \<open>uniform(min_delay, max_delay)\<close> of its two flags; when the
  minimum is not above the maximum every such delay lies between them, and when the
  minimum is not negative either the loop completes. meter_pr_rulle_script.py has no
  such flags and sleeps no delay between items.
\<close>

theorem h1_delays_within_bounds:
  "(h1_loop web mn mx random 0 ws new_run = Inr st' \<longrightarrow>
      item_delays st' = map (\<lambda>i. uniform mn mx (random i)) [0 ..< length ws]) \<and>
   (h1_loop web mn mx random 0 ws new_run = Inr st' \<and> mn \<le> mx \<and>
      (\<forall>i. 0 \<le> random i \<and> random i < 1) \<longrightarrow>
      length (item_delays st') = length ws \<and>
      (\<forall>d \<in> set (item_delays st'). mn \<le> d \<and> d \<le> mx)) \<and>
   (0 \<le> mn \<and> mn \<le> mx \<and> (\<forall>i. 0 \<le> random i \<and> random i < 1) \<longrightarrow>
      (\<exists>st'. h1_loop web mn mx random 0 ws new_run = Inr st')) \<and>
   (scrape_loop web ws new_run = Inr st'' \<longrightarrow> item_delays st'' = [])"
proof (intro conjI impI)
  assume a: "h1_loop web mn mx random 0 ws new_run = Inr st'"
  from h1_loop_delays [OF a]
  show "item_delays st' = map (\<lambda>i. uniform mn mx (random i)) [0 ..< length ws]"
    by (simp add: new_run_def item_delays_def)
next
  assume a: "h1_loop web mn mx random 0 ws new_run = Inr st' \<and> mn \<le> mx \<and>
      (\<forall>i. 0 \<le> random i \<and> random i < 1)"
  from a h1_loop_delays [of web mn mx random 0 ws new_run st']
  have d: "item_delays st' = map (\<lambda>i. uniform mn mx (random i)) [0 ..< length ws]"
    by (simp add: new_run_def item_delays_def)
  then show "length (item_delays st') = length ws"
    by simp
  have "mn \<le> uniform mn mx (random i) \<and> uniform mn mx (random i) \<le> mx" for i
    using a uniform_within [of mn mx "random i"] by (simp add: less_imp_le)
  with d show "\<forall>d \<in> set (item_delays st'). mn \<le> d \<and> d \<le> mx"
    by auto
next
  assume "0 \<le> mn \<and> mn \<le> mx \<and> (\<forall>i. 0 \<le> random i \<and> random i < 1)"
  then show "\<exists>st'. h1_loop web mn mx random 0 ws new_run = Inr st'"
    using h1_loop_completes by blast
next
  assume "scrape_loop web ws new_run = Inr st''"
  from scrape_loop_delays [OF this] show "item_delays st'' = []"
    by (simp add: new_run_def item_delays_def)
qed

lemma h1_loop_example:
  "h1_loop example_site (1 / 2) 1 (\<lambda>k. 1 / 2) 0 [''A1'', ''B9''] new_run =
     Inr \<lparr>results = [\<lparr>meter_pr_rulle = ''12,5'', basisenhed = ''MTR'', Varenr = ''A1''\<rparr>,
                     \<lparr>meter_pr_rulle = '''', basisenhed = '''', Varenr = ''B9''\<rparr>],
          slept = [(In_search, 1 / 2), (After_item, 3 / 4), (After_item, 3 / 4)]\<rparr>"
  by code_simp

theorem h1_delays_within_bounds_witness:
  "h1_loop example_site (1 / 2) 1 (\<lambda>k. 1 / 2) 0 [''A1'', ''B9''] new_run =
     Inr \<lparr>results = [\<lparr>meter_pr_rulle = ''12,5'', basisenhed = ''MTR'', Varenr = ''A1''\<rparr>,
                     \<lparr>meter_pr_rulle = '''', basisenhed = '''', Varenr = ''B9''\<rparr>],
          slept = [(In_search, 1 / 2), (After_item, 3 / 4), (After_item, 3 / 4)]\<rparr> \<and>
   (1 / 2 :: real) \<le> 1 \<and>
   item_delays \<lparr>results = [\<lparr>meter_pr_rulle = ''12,5'', basisenhed = ''MTR'', Varenr = ''A1''\<rparr>,
                     \<lparr>meter_pr_rulle = '''', basisenhed = '''', Varenr = ''B9''\<rparr>],
          slept = [(In_search, 1 / 2), (After_item, 3 / 4), (After_item, 3 / 4)]\<rparr>
     = [uniform (1 / 2) 1 (1 / 2), uniform (1 / 2) 1 (1 / 2)]"
proof -
  let ?st = "\<lparr>results = [\<lparr>meter_pr_rulle = ''12,5'', basisenhed = ''MTR'', Varenr = ''A1''\<rparr>,
                     \<lparr>meter_pr_rulle = '''', basisenhed = '''', Varenr = ''B9''\<rparr>],
          slept = [(In_search, 1 / 2), (After_item, 3 / 4), (After_item, 3 / 4 :: real)]\<rparr>"
  from h1_delays_within_bounds [of example_site "1 / 2" 1 "\<lambda>k. 1 / 2" "[''A1'', ''B9'']" ?st]
    h1_loop_example
  have "item_delays ?st = map (\<lambda>i. uniform (1 / 2) 1 (1 / 2)) [0 ..< length [''A1'', ''B9'']]"
    by blast
  also have "\<dots> = [uniform (1 / 2) 1 (1 / 2), uniform (1 / 2) 1 (1 / 2)]"
    by (simp add: upt_rec)
  finally show ?thesis
    using h1_loop_example by simp
qed

text \<open>
  C9, as the claim states it, fails for meter_pr_rulle_script.py: its run over two
  work items completes and has slept no delay between them.
\<close>

theorem no_delay_between_items_counterexample:
  "map_sum id (\<lambda>st. (length (results st), item_delays st))
     (scrape_loop example_site [''A1'', ''B9''] new_run) = Inr (2, [])"
  unfolding scrape_loop_example by (simp add: item_delays_def)

end
